theory Spec2Isabelle
  imports Complex_Main
begin

section \<open>Placement geometry of \<open>PortalManager.positionElement\<close>\<close>

text \<open>
  JavaScript numbers are modelled as \<^typ>\<open>real\<close>: the arithmetic of the placement
  code (\<open>+\<close>, \<open>-\<close>, \<open>/ 2\<close>, \<open><\<close>, \<open>>\<close>) is taken exactly, without the rounding of
  IEEE doubles and without \<open>NaN\<close>. The rectangle is the \<open>DOMRect\<close> returned by
  \<open>getBoundingClientRect()\<close>, with the six fields the code and the specification read.
\<close>

record rect =
  rect_left :: real
  rect_top :: real
  rect_width :: real
  rect_height :: real
  rect_right :: real
  rect_bottom :: real

text \<open>
  A \<open>DOMRect\<close> with origin \<open>(x, y)\<close> and the given width and height: \<open>left\<close> and
  \<open>right\<close> are the smaller and the larger of \<open>x\<close> and \<open>x + width\<close>, \<open>top\<close> and
  \<open>bottom\<close> likewise.
\<close>

definition domRect :: "real \<Rightarrow> real \<Rightarrow> real \<Rightarrow> real \<Rightarrow> rect" where
  "domRect x y w h =
     \<lparr>rect_left = min x (x + w), rect_top = min y (y + h), rect_width = w, rect_height = h,
      rect_right = max x (x + w), rect_bottom = max y (y + h)\<rparr>"

text \<open>
  The \<open>switch (placement)\<close> of \<open>positionElement\<close> (index.js lines 156 to 192), in the
  order of its cases; the arguments are \<open>placement\<close>, \<open>rect\<close>, \<open>element.offsetWidth\<close>,
  \<open>element.offsetHeight\<close> and \<open>margin\<close>, the result is \<open>(translateX, translateY)\<close>.
\<close>

definition ideal_position :: "string \<Rightarrow> rect \<Rightarrow> real \<Rightarrow> real \<Rightarrow> real \<Rightarrow> real \<times> real" where
  "ideal_position placement r offsetWidth offsetHeight margin =
     (if placement = ''top'' then
        (rect_left r + (rect_width r / 2) - (offsetWidth / 2), rect_top r - offsetHeight - margin)
      else if placement = ''bottom'' then
        (rect_left r + (rect_width r / 2) - (offsetWidth / 2), rect_bottom r + margin)
      else if placement = ''left'' then
        (rect_left r - offsetWidth - margin, rect_top r + (rect_height r / 2) - (offsetHeight / 2))
      else if placement = ''right'' then
        (rect_right r + margin, rect_top r + (rect_height r / 2) - (offsetHeight / 2))
      else if placement = ''bottom-left'' then
        (rect_left r, rect_bottom r + margin)
      else if placement = ''bottom-right'' then
        (rect_right r - offsetWidth, rect_bottom r + margin)
      else if placement = ''top-left'' then
        (rect_left r, rect_top r - offsetHeight - margin)
      else if placement = ''top-right'' then
        (rect_right r - offsetWidth, rect_top r - offsetHeight - margin)
      else
        (rect_left r, rect_bottom r + margin))"

text \<open>
  The four \<open>if\<close> statements that keep the position in the viewport (index.js lines 198
  to 212). Each one reads the current value of the variable it may overwrite, so the
  later bindings of \<open>x\<close> and \<open>y\<close> shadow the earlier ones, as the assignments do.
\<close>

definition clamp_position :: "real \<times> real \<Rightarrow> real \<Rightarrow> real \<Rightarrow> real \<Rightarrow> real \<Rightarrow> real \<times> real" where
  "clamp_position t offsetWidth offsetHeight viewportWidth viewportHeight =
     (let x = fst t; y = snd t;
          x = (if x < 0 then 0 else x);
          y = (if y < 0 then 0 else y);
          x = (if x + offsetWidth > viewportWidth then viewportWidth - offsetWidth else x);
          y = (if y + offsetHeight > viewportHeight then viewportHeight - offsetHeight else y)
      in (x, y))"

definition translate_position ::
  "string \<Rightarrow> rect \<Rightarrow> real \<Rightarrow> real \<Rightarrow> real \<Rightarrow> real \<Rightarrow> real \<Rightarrow> real \<times> real" where
  "translate_position placement r offsetWidth offsetHeight margin viewportWidth viewportHeight =
     clamp_position (ideal_position placement r offsetWidth offsetHeight margin)
       offsetWidth offsetHeight viewportWidth viewportHeight"

text \<open>
  The table of the specification (section 4.2, step 1), row by row in the order of the
  table, with the center alignment written as the specification words it: the anchor's
  midpoint minus half the element's dimension.
\<close>

definition anchor_mid_x :: "rect \<Rightarrow> real" where
  "anchor_mid_x a = rect_left a + rect_width a / 2"

definition anchor_mid_y :: "rect \<Rightarrow> real" where
  "anchor_mid_y a = rect_top a + rect_height a / 2"

definition spec_table :: "string \<Rightarrow> rect \<Rightarrow> real \<Rightarrow> real \<Rightarrow> real \<Rightarrow> real \<times> real" where
  "spec_table mode a ew eh margin =
     (if mode = ''top'' then (anchor_mid_x a - ew / 2, rect_top a - eh - margin)
      else if mode = ''bottom'' then (anchor_mid_x a - ew / 2, rect_bottom a + margin)
      else if mode = ''left'' then (rect_left a - ew - margin, anchor_mid_y a - eh / 2)
      else if mode = ''right'' then (rect_right a + margin, anchor_mid_y a - eh / 2)
      else if mode = ''top-left'' then (rect_left a, rect_top a - eh - margin)
      else if mode = ''top-right'' then (rect_right a - ew, rect_top a - eh - margin)
      else if mode = ''bottom-left'' then (rect_left a, rect_bottom a + margin)
      else if mode = ''bottom-right'' then (rect_right a - ew, rect_bottom a + margin)
      else (rect_left a, rect_bottom a + margin))"

definition enumerated_modes :: "string list" where
  "enumerated_modes =
     [''top'', ''bottom'', ''left'', ''right'',
      ''top-left'', ''top-right'', ''bottom-left'', ''bottom-right'']"


section \<open>The host document\<close>

text \<open>
  The document is a store of nodes; a node handle is its index in the store, and
  \<open>document.createElement\<close> allocates the next index. The tree is kept as the
  \<open>parentNode\<close> pointer of every node: \<open>appendChild\<close>, \<open>removeChild\<close>, \<open>contains\<close>
  and \<open>parentNode\<close>, the only tree operations of index.js, never observe the order of
  siblings. Inline styles and style sheets are kept as structured values instead of the
  text of the template literals.
\<close>

datatype cssval = Ident string | Integer int | TranslatePx real real

record css_rule =
  selector :: string
  declarations :: "(string \<times> cssval \<times> bool) list"

record node =
  parent :: "nat option"
  localName :: string
  ident :: string
  className :: string
  dataPortalId :: "string option"
  style :: "(string \<times> cssval) list"
  textContent :: "css_rule list"
  boundingClientRect :: rect
  offsetWidth :: real
  offsetHeight :: real

record dom =
  nodes :: "node list"
  head :: nat
  body :: nat
  innerWidth :: real
  innerHeight :: real

datatype error = HierarchyRequestError | NotFoundError | TypeError

definition new_node :: "string \<Rightarrow> node" where
  "new_node tg =
     \<lparr>parent = None, localName = tg, ident = [], className = [], dataPortalId = None,
      style = [], textContent = [], boundingClientRect = domRect 0 0 0 0,
      offsetWidth = 0, offsetHeight = 0\<rparr>"

definition createElement :: "dom \<Rightarrow> string \<Rightarrow> nat \<times> dom" where
  "createElement d tg = (length (nodes d), d\<lparr>nodes := nodes d @ [new_node tg]\<rparr>)"

definition update_node :: "dom \<Rightarrow> nat \<Rightarrow> (node \<Rightarrow> node) \<Rightarrow> dom" where
  "update_node d n f = d\<lparr>nodes := (nodes d)[n := f (nodes d ! n)]\<rparr>"

definition parentNode :: "dom \<Rightarrow> nat \<Rightarrow> nat option" where
  "parentNode d n = parent (nodes d ! n)"

text \<open>
  The chain \<open>n, n.parentNode, n.parentNode.parentNode, ...\<close> of at most \<open>k\<close> parent
  steps. A store of \<open>L\<close> nodes that is a forest has no chain of more than \<open>L\<close> nodes,
  so \<open>L\<close> steps reach the root; \<open>a.contains(b)\<close> is true when \<open>a\<close> is \<open>b\<close> or one of
  its ancestors.
\<close>

fun ancestors :: "nat \<Rightarrow> dom \<Rightarrow> nat \<Rightarrow> nat list" where
  "ancestors 0 d n = [n]"
| "ancestors (Suc k) d n =
     n # (case parentNode d n of None \<Rightarrow> [] | Some p \<Rightarrow> ancestors k d p)"

definition contains :: "dom \<Rightarrow> nat \<Rightarrow> nat \<Rightarrow> bool" where
  "contains d a b = (a \<in> set (ancestors (length (nodes d)) d b))"

text \<open>
  \<open>parent.appendChild(child)\<close>: the DOM refuses to insert a node into itself or into one
  of its descendants (HierarchyRequestError); otherwise the child leaves its old parent
  and becomes a child of the new one. \<open>parent.removeChild(child)\<close> throws NotFoundError
  when the child is not a child of that parent.
\<close>

definition appendChild :: "dom \<Rightarrow> nat \<Rightarrow> nat \<Rightarrow> error + dom" where
  "appendChild d p c =
     (if contains d c p then Inl HierarchyRequestError
      else Inr (update_node d c (\<lambda>n. n\<lparr>parent := Some p\<rparr>)))"

definition removeChild :: "dom \<Rightarrow> nat \<Rightarrow> nat \<Rightarrow> error + dom" where
  "removeChild d p c =
     (if parentNode d c = Some p then Inr (update_node d c (\<lambda>n. n\<lparr>parent := None\<rparr>))
      else Inl NotFoundError)"

text \<open>Assignment to one property of an inline style, \<open>element.style.prop = value\<close>.\<close>

fun assign :: "string \<Rightarrow> cssval \<Rightarrow> (string \<times> cssval) list \<Rightarrow> (string \<times> cssval) list" where
  "assign k v [] = [(k, v)]"
| "assign k v ((k', v') # ps) = (if k = k' then (k, v) # ps else (k', v') # assign k v ps)"

section \<open>The object \<open>this.portals\<close>\<close>

text \<open>
  \<open>this.portals\<close> is the object literal \<open>{}\<close>. Its own properties are kept as the list
  \<open>Object.entries\<close> enumerates: array-index keys first, in ascending numeric order, then
  the other keys in the order of their creation. A read \<open>this.portals[id]\<close> that finds no
  own property continues in \<open>Object.prototype\<close>, whose properties are all truthy.
\<close>

datatype jsval = Element nat | Inherited string

definition object_prototype_names :: "string list" where
  "object_prototype_names =
     [''constructor'', ''hasOwnProperty'', ''isPrototypeOf'', ''propertyIsEnumerable'',
      ''toLocaleString'', ''toString'', ''valueOf'', ''__proto__'',
      ''__defineGetter__'', ''__defineSetter__'', ''__lookupGetter__'', ''__lookupSetter__'']"

definition get_property :: "(string \<times> nat) list \<Rightarrow> string \<Rightarrow> jsval option" where
  "get_property ps k =
     (case map_of ps k of
        Some p \<Rightarrow> Some (Element p)
      | None \<Rightarrow> if k \<in> set object_prototype_names then Some (Inherited k) else None)"

definition decimal :: "string \<Rightarrow> nat" where
  "decimal k = fold (\<lambda>c n. 10 * n + (of_char c - 48)) k 0"

definition array_index :: "string \<Rightarrow> nat option" where
  "array_index k =
     (if k \<noteq> [] \<and> list_all (\<lambda>c. c \<in> set ''0123456789'') k
         \<and> (k = ''0'' \<or> hd k \<in> set ''123456789'') \<and> decimal k < 2 ^ 32 - 1
      then Some (decimal k) else None)"

fun insert_index :: "nat \<Rightarrow> string \<Rightarrow> nat \<Rightarrow> (string \<times> nat) list \<Rightarrow> (string \<times> nat) list" where
  "insert_index i k v [] = [(k, v)]"
| "insert_index i k v ((k', v') # ps) =
     (case array_index k' of
        Some j \<Rightarrow> if j < i then (k', v') # insert_index i k v ps else (k, v) # (k', v') # ps
      | None \<Rightarrow> (k, v) # (k', v') # ps)"

text \<open>\<open>this.portals[id] = portal\<close> for a key that is not yet an own property.\<close>

definition define_property :: "string \<Rightarrow> nat \<Rightarrow> (string \<times> nat) list \<Rightarrow> (string \<times> nat) list" where
  "define_property k v ps =
     (case array_index k of Some i \<Rightarrow> insert_index i k v ps | None \<Rightarrow> ps @ [(k, v)])"

section \<open>The class \<open>PortalManager\<close>\<close>

text \<open>
  The three signals are kept as the log of what was emitted, oldest first; subscribers
  are outside the class and are taken not to touch the manager or the document.
  A method returns its result, or the exception it throws, together with the state it
  leaves behind.
\<close>

datatype event =
    PortalCreated string nat
  | ElementAdded nat string
  | ElementRemoved nat string

record state =
  doc :: dom
  portals :: "(string \<times> nat) list"
  emitted :: "event list"

record options =
  placement :: "string option"
  portalId :: "string option"
  margin :: "real option"

definition createPortal :: "state \<Rightarrow> string \<Rightarrow> int \<Rightarrow> (error + jsval) \<times> state" where
  "createPortal s pid zIndex =
     (case get_property (portals s) pid of
        Some v \<Rightarrow> (Inr v, s)
      | None \<Rightarrow>
          let (portal, d) = createElement (doc s) ''div'';
              d = update_node d portal (\<lambda>n. n\<lparr>ident := ''portal-'' @ pid\<rparr>);
              d = update_node d portal (\<lambda>n. n\<lparr>className := ''ui-portal''\<rparr>);
              (portalStyle, d) = createElement d ''style'';
              d = update_node d portalStyle (\<lambda>n. n\<lparr>textContent :=
                    [\<lparr>selector = ''#portal-'' @ pid,
                      declarations = [(''z-index'', Integer zIndex, True)]\<rparr>]\<rparr>)
          in case appendChild d (head d) portalStyle of
               Inl e \<Rightarrow> (Inl e, s\<lparr>doc := d\<rparr>)
             | Inr d \<Rightarrow>
                 let d = update_node d portal (\<lambda>n. n\<lparr>style :=
                       [(''position'', Ident ''fixed''), (''top'', Ident ''0''),
                        (''left'', Ident ''0''), (''width'', Ident ''100%''),
                        (''height'', Ident ''100%''), (''overflow'', Ident ''visible''),
                        (''pointer-events'', Ident ''none''), (''z-index'', Integer zIndex)]\<rparr>)
                 in case appendChild d (body d) portal of
                      Inl e \<Rightarrow> (Inl e, s\<lparr>doc := d\<rparr>)
                    | Inr d \<Rightarrow>
                        let ps = define_property pid portal (portals s);
                            d = update_node d portal (\<lambda>n. n\<lparr>dataPortalId := Some pid\<rparr>)
                        in (Inr (Element portal),
                            s\<lparr>doc := d, portals := ps,
                              emitted := emitted s @ [PortalCreated pid portal]\<rparr>))"

text \<open>\<open>new PortalManager()\<close> in the host document \<open>d\<close>.\<close>

definition PortalManager :: "dom \<Rightarrow> error + state" where
  "PortalManager d =
     (case createPortal \<lparr>doc = d, portals = [], emitted = []\<rparr> ''main'' 9999 of
        (Inl e, s) \<Rightarrow> Inl e
      | (Inr v, s) \<Rightarrow> Inr s)"

definition getPortal :: "state \<Rightarrow> string \<Rightarrow> int \<Rightarrow> (error + jsval) \<times> state" where
  "getPortal s pid zIndex =
     (case get_property (portals s) pid of
        Some v \<Rightarrow> (Inr v, s)
      | None \<Rightarrow> createPortal s pid zIndex)"

text \<open>
  \<open>addToPortal\<close> calls \<open>getPortal(portalId)\<close>, so the z-index is the default 9999.
  When the value read from \<open>this.portals\<close> is not an element it has no \<open>appendChild\<close>,
  and the call \<open>portal.appendChild(element)\<close> is a TypeError.
\<close>

definition addToPortal :: "state \<Rightarrow> nat \<Rightarrow> string \<Rightarrow> (error + nat) \<times> state" where
  "addToPortal s element pid =
     (case getPortal s pid 9999 of
        (Inl e, s) \<Rightarrow> (Inl e, s)
      | (Inr (Inherited k), s) \<Rightarrow> (Inl TypeError, s)
      | (Inr (Element portal), s) \<Rightarrow>
          (case appendChild (doc s) portal element of
             Inl e \<Rightarrow> (Inl e, s)
           | Inr d \<Rightarrow>
               let d = update_node d element
                         (\<lambda>n. n\<lparr>style := assign ''pointer-events'' (Ident ''auto'') (style n)\<rparr>)
               in (Inr element,
                   s\<lparr>doc := d, emitted := emitted s @ [ElementAdded element pid]\<rparr>)))"

definition removeFromPortal :: "state \<Rightarrow> nat \<Rightarrow> (error + bool) \<times> state" where
  "removeFromPortal s element =
     (case List.find (\<lambda>(k, portal). contains (doc s) portal element) (portals s) of
        Some (pid, foundPortal) \<Rightarrow>
          if parentNode (doc s) element = Some foundPortal then
            (case removeChild (doc s) foundPortal element of
               Inl e \<Rightarrow> (Inl e, s)
             | Inr d \<Rightarrow>
                 (Inr True,
                  s\<lparr>doc := d, emitted := emitted s @ [ElementRemoved element pid]\<rparr>))
          else (Inr False, s)
      | None \<Rightarrow> (Inr False, s))"

definition positionElement :: "state \<Rightarrow> nat \<Rightarrow> nat \<Rightarrow> options \<Rightarrow> (error + nat) \<times> state" where
  "positionElement s element referenceElement opts =
     (let pl = (case placement opts of None \<Rightarrow> ''bottom'' | Some v \<Rightarrow> v);
          pid = (case portalId opts of None \<Rightarrow> ''main'' | Some v \<Rightarrow> v);
          mg = (case margin opts of None \<Rightarrow> 5 | Some v \<Rightarrow> v);
          d = doc s;
          r = boundingClientRect (nodes d ! referenceElement);
          el = nodes d ! element;
          t = translate_position pl r (offsetWidth el) (offsetHeight el) mg
                (innerWidth d) (innerHeight d);
          d = update_node d element (\<lambda>n. n\<lparr>style := assign ''position'' (Ident ''absolute'') (style n)\<rparr>);
          d = update_node d element (\<lambda>n. n\<lparr>style := assign ''top'' (Ident ''0'') (style n)\<rparr>);
          d = update_node d element (\<lambda>n. n\<lparr>style := assign ''left'' (Ident ''0'') (style n)\<rparr>);
          d = update_node d element
                (\<lambda>n. n\<lparr>style := assign ''transform'' (TranslatePx (fst t) (snd t)) (style n)\<rparr>)
      in addToPortal (s\<lparr>doc := d\<rparr>) element pid)"

text \<open>The loop of \<open>destroy\<close> over \<open>Object.entries(this.portals)\<close>.\<close>

fun detach_all :: "(string \<times> nat) list \<Rightarrow> dom \<Rightarrow> (error + unit) \<times> dom" where
  "detach_all [] d = (Inr (), d)"
| "detach_all ((k, portal) # rest) d =
     (case parentNode d portal of
        None \<Rightarrow> detach_all rest d
      | Some p \<Rightarrow>
          (case removeChild d p portal of
             Inl e \<Rightarrow> (Inl e, d)
           | Inr d' \<Rightarrow> detach_all rest d'))"

definition destroy :: "state \<Rightarrow> (error + unit) \<times> state" where
  "destroy s =
     (case detach_all (portals s) (doc s) of
        (Inl e, d) \<Rightarrow> (Inl e, s\<lparr>doc := d\<rparr>)
      | (Inr u, d) \<Rightarrow> (Inr (), s\<lparr>doc := d, portals := []\<rparr>))"

text \<open>
  The container and the style element as a completed \<open>_createPortal(pid, z)\<close> leaves
  them in the document \<open>d\<close>: every property the method sets, at its final value.
\<close>

definition portal_node :: "dom \<Rightarrow> string \<Rightarrow> int \<Rightarrow> node" where
  "portal_node d pid z =
     \<lparr>parent = Some (body d), localName = ''div'', ident = ''portal-'' @ pid,
      className = ''ui-portal'', dataPortalId = Some pid,
      style = [(''position'', Ident ''fixed''), (''top'', Ident ''0''),
               (''left'', Ident ''0''), (''width'', Ident ''100%''),
               (''height'', Ident ''100%''), (''overflow'', Ident ''visible''),
               (''pointer-events'', Ident ''none''), (''z-index'', Integer z)],
      textContent = [], boundingClientRect = domRect 0 0 0 0,
      offsetWidth = 0, offsetHeight = 0\<rparr>"

definition style_node :: "dom \<Rightarrow> string \<Rightarrow> int \<Rightarrow> node" where
  "style_node d pid z =
     \<lparr>parent = Some (head d), localName = ''style'', ident = [], className = [],
      dataPortalId = None, style = [],
      textContent = [\<lparr>selector = ''#portal-'' @ pid,
                       declarations = [(''z-index'', Integer z, True)]\<rparr>],
      boundingClientRect = domRect 0 0 0 0, offsetWidth = 0, offsetHeight = 0\<rparr>"

section \<open>Well-formed states\<close>

text \<open>
  Handles are references to existing nodes: the parent pointers, \<open>document.head\<close>,
  \<open>document.body\<close> and the registered containers all lie in the store. The containers
  are \<open>div\<close> elements, none of them a child of the head, under pairwise different keys.
\<close>

definition linked :: "dom \<Rightarrow> bool" where
  "linked d =
     list_all (\<lambda>n. case parent n of None \<Rightarrow> True | Some p \<Rightarrow> p < length (nodes d)) (nodes d)"

definition wf_dom :: "dom \<Rightarrow> bool" where
  "wf_dom d =
     (head d < length (nodes d) \<and> body d < length (nodes d)
      \<and> localName (nodes d ! head d) = ''head'' \<and> localName (nodes d ! body d) = ''body''
      \<and> linked d)"

definition wf_state :: "state \<Rightarrow> bool" where
  "wf_state s =
     (wf_dom (doc s)
      \<and> list_all (\<lambda>(k, p). p < length (nodes (doc s)) \<and> localName (nodes (doc s) ! p) = ''div''
                          \<and> parent (nodes (doc s) ! p) \<noteq> Some (head (doc s)))
           (portals s)
      \<and> distinct (map fst (portals s)))"

section \<open>A small page\<close>

text \<open>
  A document of six nodes: \<open>html\<close> (0), \<open>head\<close> (1), \<open>body\<close> (2), a button in the body
  (3) measured at \<open>{left: 100, top: 100, width: 50, height: 20}\<close>, and a detached
  \<open>div\<close> (4) of size 30 by 10 holding a \<open>span\<close> (5); the viewport is 1000 by 1000.
\<close>

definition page :: dom where
  "page =
     \<lparr>nodes =
        [new_node ''html'',
         (new_node ''head'')\<lparr>parent := Some 0\<rparr>,
         (new_node ''body'')\<lparr>parent := Some 0\<rparr>,
         (new_node ''button'')\<lparr>parent := Some 2, boundingClientRect := domRect 100 100 50 20,
                                 offsetWidth := 50, offsetHeight := 20\<rparr>,
         (new_node ''div'')\<lparr>offsetWidth := 30, offsetHeight := 10\<rparr>,
         (new_node ''span'')\<lparr>parent := Some 4\<rparr>],
      head = 1, body = 2, innerWidth = 1000, innerHeight = 1000\<rparr>"

text \<open>
  States of a manager on this page. \<open>manager0\<close> is the manager as constructed: the
  container of \<open>"main"\<close> is node 6, its style element node 7. In \<open>mounted\<close> the
  \<open>div\<close> has been added to \<open>"main"\<close>. In \<open>adopted\<close> the surface \<open>"a"\<close> was
  requested (container 8, style element 9) and its container added to \<open>"main"\<close>. In
  \<open>rebuilt\<close> the manager was torn down and \<open>"a"\<close> requested (container 8); in
  \<open>nested\<close> \<open>"main"\<close> was requested after that (container 10) and its container
  added to \<open>"a"\<close>.
\<close>

definition manager0 :: state where
  "manager0 = projr (PortalManager page)"

definition mounted :: state where
  "mounted = snd (addToPortal manager0 4 ''main'')"

definition adopted :: state where
  "adopted =
     (let s = snd (getPortal manager0 ''a'' 9999);
          s = snd (addToPortal s 8 ''main'')
      in s)"

definition rebuilt :: state where
  "rebuilt =
     (let s = snd (destroy manager0);
          s = snd (getPortal s ''a'' 9999)
      in s)"

definition nested :: state where
  "nested =
     (let s = snd (getPortal rebuilt ''main'' 9999);
          s = snd (addToPortal s 10 ''a'')
      in s)"

section \<open>The document operations\<close>

lemma nodes_update_node [simp]:
  "nodes (update_node d n f) = (nodes d)[n := f (nodes d ! n)]"
  "head (update_node d n f) = head d" "body (update_node d n f) = body d"
  "innerWidth (update_node d n f) = innerWidth d" "innerHeight (update_node d n f) = innerHeight d"
  by (simp_all add: update_node_def)

lemma linked_parent:
  "linked d \<Longrightarrow> m < length (nodes d) \<Longrightarrow> parentNode d m = Some p \<Longrightarrow> p < length (nodes d)"
  by (auto simp: linked_def parentNode_def list_all_length split: option.splits)

lemma linkedI:
  "(\<And>m p. m < length (nodes d) \<Longrightarrow> parentNode d m = Some p \<Longrightarrow> p < length (nodes d)) \<Longrightarrow> linked d"
  by (auto simp: linked_def parentNode_def list_all_length split: option.splits)

lemma ancestors_hd: "n \<in> set (ancestors k d n)"
  by (cases k) simp_all

lemma ancestors_parents:
  "linked d \<Longrightarrow> n < length (nodes d) \<Longrightarrow> c \<in> set (ancestors k d n) \<Longrightarrow> c \<noteq> n
     \<Longrightarrow> \<exists>m<length (nodes d). parentNode d m = Some c"
proof (induction k arbitrary: n)
  case 0
  then show ?case by simp
next
  case (Suc k)
  from Suc.prems have "\<exists>p. parentNode d n = Some p \<and> c \<in> set (ancestors k d p)"
    by (cases "parentNode d n") auto
  then obtain p where p: "parentNode d n = Some p" and c: "c \<in> set (ancestors k d p)"
    by blast
  from linked_parent [OF Suc.prems(1,2) p] have pl: "p < length (nodes d)" .
  show ?case
  proof (cases "c = p")
    case True
    with p Suc.prems(2) show ?thesis by blast
  next
    case False
    from Suc.IH [OF Suc.prems(1) pl c False] show ?thesis .
  qed
qed

lemma not_contains_childless:
  "linked d \<Longrightarrow> p < length (nodes d) \<Longrightarrow> c \<noteq> p
     \<Longrightarrow> (\<And>m. m < length (nodes d) \<Longrightarrow> parentNode d m \<noteq> Some c) \<Longrightarrow> \<not> contains d c p"
  unfolding contains_def using ancestors_parents by blast

lemma fresh_not_contains:
  assumes cl: "linked d" and p: "p < length (nodes d)" and c: "length (nodes d) \<le> c"
    and x: "parent x = None \<or> (\<exists>q<length (nodes d). parent x = Some q)"
    and y: "parent y = None \<or> (\<exists>q<length (nodes d). parent y = Some q)"
  shows "\<not> contains (d\<lparr>nodes := nodes d @ [x, y]\<rparr>) c p"
proof (rule not_contains_childless)
  let ?d = "d\<lparr>nodes := nodes d @ [x, y]\<rparr>"
  have old: "parentNode ?d m = parentNode d m" if "m < length (nodes d)" for m
    using that by (simp add: parentNode_def nth_append)
  have new: "parentNode ?d m = None \<or> (\<exists>q<length (nodes d). parentNode ?d m = Some q)"
    if "m < length (nodes ?d)" for m
  proof (cases "m < length (nodes d)")
    case True
    show ?thesis
    proof (cases "parentNode d m")
      case None
      with old [OF True] show ?thesis by simp
    next
      case (Some q)
      from linked_parent [OF cl True Some] Some old [OF True] show ?thesis by simp
    qed
  next
    case False
    with that have "m = length (nodes d) \<or> m = Suc (length (nodes d))" by auto
    then show ?thesis
    proof
      assume "m = length (nodes d)"
      with x show ?thesis by (simp add: parentNode_def nth_append)
    next
      assume "m = Suc (length (nodes d))"
      with y show ?thesis by (simp add: parentNode_def nth_append)
    qed
  qed
  show "linked ?d"
  proof (rule linkedI)
    fix m r assume "m < length (nodes ?d)" and "parentNode ?d m = Some r"
    with new [of m] show "r < length (nodes ?d)" by auto
  qed
  show "p < length (nodes ?d)" using p by simp
  show "c \<noteq> p" using p c by simp
  fix m assume "m < length (nodes ?d)"
  with new [of m] c show "parentNode ?d m \<noteq> Some c" by auto
qed

lemma map_of_insert_index:
  "k \<notin> fst ` set ps \<Longrightarrow>
     map_of (insert_index i k v ps) k' = (if k' = k then Some v else map_of ps k')"
  by (induction ps) (auto split: option.splits)

lemma map_of_define_property:
  assumes "map_of ps k = None"
  shows "map_of (define_property k v ps) k' = (if k' = k then Some v else map_of ps k')"
proof -
  from assms have nk: "k \<notin> fst ` set ps" by (simp add: map_of_eq_None_iff)
  show ?thesis
  proof (cases "array_index k")
    case None
    then show ?thesis using assms
      by (cases "map_of ps k'") (auto simp: define_property_def map_add_def)
  next
    case (Some i)
    then show ?thesis by (simp add: define_property_def map_of_insert_index [OF nk])
  qed
qed

lemma set_insert_index: "set (insert_index i k v ps) = insert (k, v) (set ps)"
  by (induction ps) (auto split: option.splits if_splits)

lemma set_define_property: "set (define_property k v ps) = insert (k, v) (set ps)"
  by (auto simp: define_property_def set_insert_index split: option.splits)

lemma distinct_insert_index:
  "k \<notin> fst ` set ps \<Longrightarrow> distinct (map fst ps) \<Longrightarrow> distinct (map fst (insert_index i k v ps))"
  by (induction ps) (auto simp: set_insert_index split: option.splits)

lemma distinct_define_property:
  "map_of ps k = None \<Longrightarrow> distinct (map fst ps) \<Longrightarrow> distinct (map fst (define_property k v ps))"
  by (auto simp: define_property_def distinct_insert_index map_of_eq_None_iff split: option.splits)

lemma createPortal_fresh:
  assumes wf: "wf_dom (doc s)" and absent: "get_property (portals s) pid = None"
  shows "createPortal s pid z =
           (Inr (Element (length (nodes (doc s)))),
            s\<lparr>doc := (doc s)\<lparr>nodes := nodes (doc s) @ [portal_node (doc s) pid z, style_node (doc s) pid z]\<rparr>,
              portals := define_property pid (length (nodes (doc s))) (portals s),
              emitted := emitted s @ [PortalCreated pid (length (nodes (doc s)))]\<rparr>)"
proof -
  let ?d = "doc s"
  let ?L = "length (nodes ?d)"
  from wf have cl: "linked ?d" and h: "head ?d < ?L" and b: "body ?d < ?L"
    by (simp_all add: wf_dom_def)
  have c1: "\<not> contains (?d\<lparr>nodes := nodes ?d @ [x, y]\<rparr>) (Suc ?L) (head ?d)"
    if "parent x = None" "parent y = None" for x y
    using fresh_not_contains [OF cl h, of "Suc ?L" x y] that by simp
  have c2: "\<not> contains (?d\<lparr>nodes := nodes ?d @ [x, y]\<rparr>) ?L (body ?d)"
    if "parent x = None" "parent y = Some (head ?d)" for x y
    using fresh_not_contains [OF cl b, of ?L x y] that h by simp
  show ?thesis
    using absent
    by (simp add: createPortal_def createElement_def Let_def appendChild_def update_node_def
        nth_append list_update_append c1 c2 new_node_def portal_node_def style_node_def)
qed

lemma linked_append2:
  assumes cl: "linked d"
    and x: "parent x = None \<or> (\<exists>q<length (nodes d). parent x = Some q)"
    and y: "parent y = None \<or> (\<exists>q<length (nodes d). parent y = Some q)"
  shows "linked (d\<lparr>nodes := nodes d @ [x, y]\<rparr>)"
proof (rule linkedI)
  let ?d = "d\<lparr>nodes := nodes d @ [x, y]\<rparr>"
  fix m r assume m: "m < length (nodes ?d)" and r: "parentNode ?d m = Some r"
  show "r < length (nodes ?d)"
  proof (cases "m < length (nodes d)")
    case True
    with r have "parentNode d m = Some r" by (simp add: parentNode_def nth_append)
    from linked_parent [OF cl True this] show ?thesis by simp
  next
    case False
    with m have "m = length (nodes d) \<or> m = Suc (length (nodes d))" by auto
    with r x y show ?thesis by (auto simp: parentNode_def nth_append)
  qed
qed

lemma linked_update:
  assumes cl: "linked d"
    and f: "\<And>x. parent (f x) = parent x \<or> parent (f x) = None
              \<or> (\<exists>q<length (nodes d). parent (f x) = Some q)"
  shows "linked (update_node d c f)"
proof (rule linkedI)
  fix m r assume m: "m < length (nodes (update_node d c f))"
    and r: "parentNode (update_node d c f) m = Some r"
  from m have ml: "m < length (nodes d)" by simp
  show "r < length (nodes (update_node d c f))"
  proof (cases "m = c")
    case True
    with r ml have "parent (f (nodes d ! c)) = Some r" by (simp add: parentNode_def)
    with f [of "nodes d ! c"] have "parentNode d c = Some r \<or> r < length (nodes d)"
      by (auto simp: parentNode_def)
    with linked_parent [OF cl, of c r] ml True show ?thesis by auto
  next
    case False
    with r have "parentNode d m = Some r" by (simp add: parentNode_def)
    from linked_parent [OF cl ml this] show ?thesis by simp
  qed
qed

lemma get_property_None:
  "get_property ps k = None \<Longrightarrow> map_of ps k = None"
  by (auto simp: get_property_def split: option.splits if_splits)

lemma wf_state_createPortal:
  assumes wf: "wf_state s" and absent: "get_property (portals s) pid = None"
  shows "wf_state (snd (createPortal s pid z))"
proof -
  let ?d = "doc s"
  let ?L = "length (nodes ?d)"
  let ?d' = "?d\<lparr>nodes := nodes ?d @ [portal_node ?d pid z, style_node ?d pid z]\<rparr>"
  from wf have wd: "wf_dom ?d" by (simp add: wf_state_def)
  then have cl: "linked ?d" and h: "head ?d < ?L" and b: "body ?d < ?L"
    and th: "localName (nodes ?d ! head ?d) = ''head''" and tb: "localName (nodes ?d ! body ?d) = ''body''"
    by (simp_all add: wf_dom_def)
  from th tb have hb: "head ?d \<noteq> body ?d" by auto
  have l': "linked ?d'"
    by (rule linked_append2 [OF cl]) (simp_all add: portal_node_def style_node_def h b)
  have wd': "wf_dom ?d'"
    using h b th tb l' by (simp add: wf_dom_def nth_append)
  from wf have old: "list_all (\<lambda>(k, p). p < ?L \<and> localName (nodes ?d ! p) = ''div''
                          \<and> parent (nodes ?d ! p) \<noteq> Some (head ?d)) (portals s)"
    and dist: "distinct (map fst (portals s))"
    by (simp_all add: wf_state_def)
  have roots: "list_all (\<lambda>(k, p). p < length (nodes ?d') \<and> localName (nodes ?d' ! p) = ''div''
                          \<and> parent (nodes ?d' ! p) \<noteq> Some (head ?d'))
                 (define_property pid ?L (portals s))"
    using old hb
    by (auto simp: list_all_iff set_define_property nth_append portal_node_def)
  have d: "distinct (map fst (define_property pid ?L (portals s)))"
    by (rule distinct_define_property [OF get_property_None [OF absent] dist])
  show ?thesis
    using wd' roots d by (simp add: createPortal_fresh [OF wd absent] wf_state_def)
qed

lemma wf_state_getPortal: "wf_state s \<Longrightarrow> wf_state (snd (getPortal s pid z))"
  by (cases "get_property (portals s) pid") (simp_all add: getPortal_def wf_state_createPortal)

lemma PortalManager_new:
  assumes wf: "wf_dom d"
  shows "PortalManager d =
           Inr \<lparr>doc = d\<lparr>nodes := nodes d @ [portal_node d ''main'' 9999, style_node d ''main'' 9999]\<rparr>,
                portals = [(''main'', length (nodes d))],
                emitted = [PortalCreated ''main'' (length (nodes d))]\<rparr>"
proof -
  let ?s = "\<lparr>doc = d, portals = [], emitted = []\<rparr>"
  have a: "get_property (portals ?s) ''main'' = None"
    by (simp add: get_property_def object_prototype_names_def)
  have w: "wf_dom (doc ?s)" using wf by simp
  have ai: "array_index ''main'' = None" by (simp add: array_index_def)
  show ?thesis
    by (simp add: PortalManager_def createPortal_fresh [OF w a] define_property_def ai)
qed

lemma manager0_constructed: "PortalManager page = Inr manager0"
proof -
  have "wf_dom page" by (simp add: wf_dom_def page_def new_node_def linked_def)
  from PortalManager_new [OF this] show ?thesis by (simp add: manager0_def)
qed

lemma wf_state_PortalManager:
  assumes wf: "wf_dom d" and new: "PortalManager d = Inr s"
  shows "wf_state s"
proof -
  let ?s = "\<lparr>doc = d, portals = [], emitted = []\<rparr>"
  have a: "get_property (portals ?s) ''main'' = None"
    by (simp add: get_property_def object_prototype_names_def)
  have w: "wf_state ?s" using wf by (simp add: wf_state_def)
  then have wd: "wf_dom (doc ?s)" by (simp add: wf_state_def)
  from wf_state_createPortal [OF w a, of 9999] new show ?thesis
    by (simp add: PortalManager_def createPortal_fresh [OF wd a])
qed

lemma contains_child:
  assumes "b < length (nodes d)" and "parentNode d b = Some a"
  shows "contains d a b"
proof -
  from assms(1) obtain k where k: "length (nodes d) = Suc k" by (cases "length (nodes d)") auto
  show ?thesis using assms(2) ancestors_hd [of a k d] by (simp add: contains_def k)
qed

lemma find_first_key:
  "map_of ps k = Some v \<Longrightarrow> P (k, v)
     \<Longrightarrow> \<forall>x \<in> set (takeWhile (\<lambda>(k', p). k' \<noteq> k) ps). \<not> P x
     \<Longrightarrow> List.find P ps = Some (k, v)"
proof (induction ps)
  case Nil
  then show ?case by simp
next
  case (Cons a ps)
  obtain k' q where a: "a = (k', q)" by (cases a)
  show ?case
  proof (cases "k' = k")
    case True
    with Cons.prems a show ?thesis by simp
  next
    case False
    with Cons.prems a have "map_of ps k = Some v" "\<not> P a"
      and "\<forall>x \<in> set (takeWhile (\<lambda>(k', p). k' \<noteq> k) ps). \<not> P x"
      by simp_all
    with Cons.IH Cons.prems(2) show ?thesis by simp
  qed
qed

lemma removeFromPortal_not_child:
  assumes "\<forall>(k, p) \<in> set (portals s). parentNode (doc s) e \<noteq> Some p"
  shows "removeFromPortal s e = (Inr False, s)"
proof (cases "List.find (\<lambda>(k, portal). contains (doc s) portal e) (portals s)")
  case None
  then show ?thesis by (simp add: removeFromPortal_def)
next
  case (Some a)
  obtain k p where a: "a = (k, p)" by (cases a)
  from Some a have "(k, p) \<in> set (portals s)" by (auto simp: find_Some_iff in_set_conv_nth)
  with assms have "parentNode (doc s) e \<noteq> Some p" by blast
  with Some a show ?thesis by (simp add: removeFromPortal_def)
qed

lemma removeFromPortal_found:
  assumes "List.find (\<lambda>(k, portal). contains (doc s) portal e) (portals s) = Some (k, p)"
    and "parentNode (doc s) e = Some p"
  shows "removeFromPortal s e =
           (Inr True, s\<lparr>doc := update_node (doc s) e (\<lambda>n. n\<lparr>parent := None\<rparr>),
                        emitted := emitted s @ [ElementRemoved e k]\<rparr>)"
  using assms by (simp add: removeFromPortal_def removeChild_def)

lemma getPortal_registered:
  assumes wf: "wf_dom (doc s)" and g: "getPortal s pid z = (Inr (Element p), s1)"
  shows "map_of (portals s1) pid = Some p \<and> length (nodes (doc s)) \<le> length (nodes (doc s1))"
proof (cases "get_property (portals s) pid")
  case None
  from g show ?thesis
    by (simp add: getPortal_def None createPortal_fresh [OF wf None]
        map_of_define_property [OF get_property_None [OF None]])
      (auto simp: map_of_define_property [OF get_property_None [OF None]])
next
  case (Some v)
  with g show ?thesis
    by (auto simp: getPortal_def get_property_def split: option.splits if_splits)
qed

lemma addToPortal_success:
  assumes a: "addToPortal s e pid = (Inr r, s1)"
  shows "\<exists>p s'. getPortal s pid 9999 = (Inr (Element p), s') \<and> \<not> contains (doc s') e p \<and> r = e
           \<and> s1 = s'\<lparr>doc := update_node (update_node (doc s') e (\<lambda>n. n\<lparr>parent := Some p\<rparr>)) e
                        (\<lambda>n. n\<lparr>style := assign ''pointer-events'' (Ident ''auto'') (style n)\<rparr>),
                     emitted := emitted s' @ [ElementAdded e pid]\<rparr>"
  using a
  by (auto simp: addToPortal_def appendChild_def Let_def
      split: prod.splits sum.splits jsval.splits if_splits)

section \<open>Placement\<close>

text \<open>
  C1. The coordinates the \<open>switch\<close> computes are those of the table of the
  specification, for every mode string, anchor rectangle, element size and margin; and
  for the anchor \<open>{left: 100, top: 100, width: 50, height: 20}\<close>, an element of 30 by
  10, margin 5 and a viewport of 1000 by 1000, \<open>"bottom"\<close> gives (110, 125),
  \<open>"top-left"\<close> gives (100, 85) and \<open>"right"\<close> gives (155, 105). On the small page,
  where the button and the \<open>div\<close> have these measures, \<open>positionElement\<close> with
  \<open>"bottom"\<close> sets the transform of the \<open>div\<close> to \<open>translate(110px, 125px)\<close>.
\<close>

theorem ideal_position_table:
  "ideal_position mode a ew eh mg = spec_table mode a ew eh mg
   \<and> translate_position ''bottom'' (domRect 100 100 50 20) 30 10 5 1000 1000 = (110, 125)
   \<and> translate_position ''top-left'' (domRect 100 100 50 20) 30 10 5 1000 1000 = (100, 85)
   \<and> translate_position ''right'' (domRect 100 100 50 20) 30 10 5 1000 1000 = (155, 105)
   \<and> map_of (style (nodes (doc (snd (positionElement manager0 4 3
            \<lparr>placement = Some ''bottom'', portalId = None, margin = None\<rparr>))) ! 4)) ''transform''
       = Some (TranslatePx 110 125)"
proof -
  have "map_of (style (nodes (doc (snd (positionElement manager0 4 3
            \<lparr>placement = Some ''bottom'', portalId = None, margin = None\<rparr>))) ! 4)) ''transform''
       = Some (TranslatePx 110 125)"
    by code_simp
  moreover
  have "ideal_position mode a ew eh mg = spec_table mode a ew eh mg"
    by (simp add: ideal_position_def spec_table_def anchor_mid_x_def anchor_mid_y_def)
  moreover have "translate_position ''bottom'' (domRect 100 100 50 20) 30 10 5 1000 1000 = (110, 125)"
    by (simp add: translate_position_def ideal_position_def clamp_position_def domRect_def)
  moreover have "translate_position ''top-left'' (domRect 100 100 50 20) 30 10 5 1000 1000 = (100, 85)"
    by (simp add: translate_position_def ideal_position_def clamp_position_def domRect_def)
  moreover have "translate_position ''right'' (domRect 100 100 50 20) 30 10 5 1000 1000 = (155, 105)"
    by (simp add: translate_position_def ideal_position_def clamp_position_def domRect_def)
  ultimately show ?thesis by blast
qed

text \<open>
  C2. After the ideal coordinates, the four steps run in the order x below 0, y below
  0, x beyond the right edge, y beyond the bottom edge; the final x depends on the ideal
  x, the element's width and the viewport's width only, the final y on the ideal y and
  the two heights only. An element wider than the viewport ends at a negative x, one
  taller than the viewport at a negative y. For the anchor at the origin, \<open>"top-left"\<close>
  ends at (0, 0).
\<close>

theorem clamp_position_steps:
  "clamp_position (x, y) ew eh vw vh =
     (let x1 = (if x < 0 then 0 else x) in if x1 + ew > vw then vw - ew else x1,
      let y1 = (if y < 0 then 0 else y) in if y1 + eh > vh then vh - eh else y1)
   \<and> (ew > vw \<longrightarrow> fst (clamp_position (x, y) ew eh vw vh) < 0)
   \<and> (eh > vh \<longrightarrow> snd (clamp_position (x, y) ew eh vw vh) < 0)
   \<and> ideal_position ''top-left'' (domRect 0 0 50 20) 30 10 5 = (0, - 15)
   \<and> translate_position ''top-left'' (domRect 0 0 50 20) 30 10 5 1000 1000 = (0, 0)"
proof -
  have "ideal_position ''top-left'' (domRect 0 0 50 20) 30 10 5 = (0, - 15)"
    by (simp add: ideal_position_def domRect_def)
  moreover have "translate_position ''top-left'' (domRect 0 0 50 20) 30 10 5 1000 1000 = (0, 0)"
    by (simp add: translate_position_def ideal_position_def clamp_position_def domRect_def)
  ultimately show ?thesis
    by (auto simp: clamp_position_def Let_def)
qed

theorem clamp_position_steps_witness:
  "(30::real) > 20 \<and> (10::real) > 8 \<and> clamp_position (5, 5) 30 10 20 8 = (- 10, - 2)
   \<and> fst (clamp_position (5, 5) 30 10 20 8) < 0 \<and> snd (clamp_position (5, 5) 30 10 20 8) < 0"
  using clamp_position_steps [of 5 5 30 10 20 8] by simp

text \<open>
  C6. A mode string that is none of the eight enumerated ones takes the \<open>default\<close>
  branch: x is the anchor's left, y the anchor's bottom plus the margin, and
  \<open>positionElement\<close> does with it exactly what it does with \<open>"bottom-left"\<close>, so the
  mode is never a reason to fail.
\<close>

theorem unrecognized_mode_fallback:
  assumes "mode \<notin> set enumerated_modes"
  shows "ideal_position mode a ew eh mg = (rect_left a, rect_bottom a + mg)
         \<and> ideal_position mode a ew eh mg = ideal_position ''bottom-left'' a ew eh mg
         \<and> positionElement s e ref (opts\<lparr>placement := Some mode\<rparr>)
             = positionElement s e ref (opts\<lparr>placement := Some ''bottom-left''\<rparr>)"
proof -
  from assms have i: "ideal_position mode a ew eh mg = (rect_left a, rect_bottom a + mg)" for a ew eh mg
    by (simp add: ideal_position_def enumerated_modes_def)
  have b: "ideal_position ''bottom-left'' a ew eh mg = (rect_left a, rect_bottom a + mg)" for a ew eh mg
    by (simp add: ideal_position_def)
  show ?thesis
    by (simp add: i b positionElement_def translate_position_def Let_def)
qed

theorem unrecognized_mode_fallback_witness:
  "''diagonal'' \<notin> set enumerated_modes
   \<and> ideal_position ''diagonal'' (domRect 100 100 50 20) 30 10 5 = (100, 125)
   \<and> fst (positionElement manager0 4 3 \<lparr>placement = Some ''diagonal'', portalId = None, margin = None\<rparr>)
       = Inr 4"
proof -
  have m: "''diagonal'' \<notin> set enumerated_modes" by (simp add: enumerated_modes_def)
  have p: "fst (positionElement manager0 4 3 \<lparr>placement = Some ''bottom-left'', portalId = None, margin = None\<rparr>)
       = Inr 4"
    by code_simp
  from unrecognized_mode_fallback [OF m, of "domRect 100 100 50 20" 30 10 5 manager0 4 3
      "\<lparr>placement = None, portalId = None, margin = None\<rparr>"] m p
  show ?thesis by (simp add: domRect_def)
qed

section \<open>Surfaces\<close>

lemma getPortal_twice:
  assumes wf: "wf_dom (doc s)"
  shows "\<exists>v s1. getPortal s pid z1 = (Inr v, s1) \<and> getPortal s1 pid z2 = (Inr v, s1)"
proof (cases "get_property (portals s) pid")
  case None
  let ?L = "length (nodes (doc s))"
  have "get_property (define_property pid ?L (portals s)) pid = Some (Element ?L)"
    by (simp add: get_property_def map_of_define_property [OF get_property_None [OF None]])
  then show ?thesis
    by (simp add: getPortal_def None createPortal_fresh [OF wf None])
next
  case (Some v)
  then show ?thesis by (simp add: getPortal_def)
qed

text \<open>
  C3, at the id \<open>"constructor"\<close>. The read \<open>this.portals["constructor"]\<close> finds the
  property every object literal inherits from \<open>Object.prototype\<close>, which is truthy: on
  the manager as constructed \<open>getPortal\<close> returns that inherited value, creates and
  registers nothing, and \<open>addToPortal\<close> with this id fails with a TypeError.
\<close>

theorem getPortal_inherited_id:
  "getPortal manager0 ''constructor'' 1 = (Inr (Inherited ''constructor''), manager0)
   \<and> map_of (portals manager0) ''constructor'' = None
   \<and> fst (addToPortal manager0 4 ''constructor'') = Inl TypeError"
proof -
  have "getPortal manager0 ''constructor'' 1 = (Inr (Inherited ''constructor''), manager0)"
    by code_simp
  moreover have "map_of (portals manager0) ''constructor'' = None"
    by code_simp
  moreover have "fst (addToPortal manager0 4 ''constructor'') = Inl TypeError"
    by code_simp
  ultimately show ?thesis by blast
qed

text \<open>
  C7. In every well-formed host document the constructor succeeds and leaves exactly
  one surface, \<open>"main"\<close>: its container is the new node, a child of the body with
  z-index 9999 in its inline style, next to a style element in the head with the rule
  \<open>z-index: 9999 !important\<close>; one \<open>portalCreated\<close> notification has been emitted.
  \<open>getPortal("main", z)\<close> then returns this container and leaves the state, and so the
  log of notifications, as it is.
\<close>

theorem constructor_creates_main:
  assumes "wf_dom d"
  shows "\<exists>s r. PortalManager d = Inr s \<and> r = length (nodes d)
           \<and> portals s = [(''main'', r)]
           \<and> nodes (doc s) ! r = portal_node d ''main'' 9999
           \<and> map_of (style (nodes (doc s) ! r)) ''z-index'' = Some (Integer 9999)
           \<and> parentNode (doc s) r = Some (body (doc s))
           \<and> nodes (doc s) ! Suc r = style_node d ''main'' 9999
           \<and> emitted s = [PortalCreated ''main'' r]
           \<and> (\<forall>z. getPortal s ''main'' z = (Inr (Element r), s))"
  by (simp add: PortalManager_new [OF assms] getPortal_def get_property_def parentNode_def
      nth_append portal_node_def)

theorem constructor_creates_main_witness:
  "wf_dom page \<and> (\<exists>s. PortalManager page = Inr s \<and> portals s = [(''main'', 6)]
     \<and> map_of (style (nodes (doc s) ! 6)) ''z-index'' = Some (Integer 9999)
     \<and> parentNode (doc s) 6 = Some 2
     \<and> emitted s = [PortalCreated ''main'' 6]
     \<and> getPortal s ''main'' 1 = (Inr (Element 6), s))"
proof -
  have w: "wf_dom page" by (simp add: wf_dom_def page_def new_node_def linked_def)
  have l: "length (nodes page) = 6" "body page = 2" by (simp_all add: page_def)
  from constructor_creates_main [OF w] obtain s r where
    "PortalManager page = Inr s" "r = length (nodes page)" "portals s = [(''main'', r)]"
    "map_of (style (nodes (doc s) ! r)) ''z-index'' = Some (Integer 9999)"
    "parentNode (doc s) r = Some (body (doc s))" "emitted s = [PortalCreated ''main'' r]"
    "\<forall>z. getPortal s ''main'' z = (Inr (Element r), s)"
    by blast
  moreover from this have "body (doc s) = 2"
    using PortalManager_new [OF w] by (auto simp: l)
  ultimately show ?thesis using w l by auto
qed

section \<open>Membership\<close>

text \<open>
  C5. When the element is not a direct child of the container of any registered
  surface, which includes an element nested deeper inside a surface, \<open>removeFromPortal\<close>
  returns false without an exception and leaves the state as it is: the document, the
  registry and the log of notifications.
\<close>

theorem remove_of_non_member:
  assumes "\<forall>(k, p) \<in> set (portals s). parentNode (doc s) e \<noteq> Some p"
  shows "removeFromPortal s e = (Inr False, s)"
  by (rule removeFromPortal_not_child [OF assms])

theorem remove_of_non_member_witness:
  "parentNode (doc mounted) 5 = Some 4 \<and> parentNode (doc mounted) 4 = Some 6
   \<and> portals mounted = [(''main'', 6)]
   \<and> removeFromPortal mounted 5 = (Inr False, mounted)"
proof -
  have p: "portals mounted = [(''main'', 6)]" by code_simp
  have a: "parentNode (doc mounted) 5 = Some 4" by code_simp
  have b: "parentNode (doc mounted) 4 = Some 6" by code_simp
  have h: "\<forall>(k, p) \<in> set (portals mounted). parentNode (doc mounted) 5 \<noteq> Some p"
    by (simp add: p a)
  from remove_of_non_member [OF h] p a b show ?thesis by simp
qed

text \<open>
  Where the loop of \<open>removeFromPortal\<close> meets no surface that contains the element
  before it reaches \<open>"main"\<close>, the round trip goes through: after a successful
  \<open>addToPortal(e, "main")\<close> the call \<open>removeFromPortal(e)\<close> returns true, detaches
  \<open>e\<close> and emits \<open>elementRemoved(e, "main")\<close>, and a second call returns false and
  changes nothing.
\<close>

lemma remove_after_add:
  assumes wf: "wf_dom (doc s)" and e: "e < length (nodes (doc s))"
    and add: "addToPortal s e ''main'' = (Inr r, s1)"
    and before: "\<forall>(k, p) \<in> set (takeWhile (\<lambda>(k, p). k \<noteq> ''main'') (portals s1)).
                   \<not> contains (doc s1) p e"
  shows "\<exists>s2. removeFromPortal s1 e = (Inr True, s2)
           \<and> parentNode (doc s2) e = None
           \<and> emitted s2 = emitted s1 @ [ElementRemoved e ''main'']
           \<and> portals s2 = portals s1
           \<and> removeFromPortal s2 e = (Inr False, s2)"
proof -
  from addToPortal_success [OF add] obtain p s' where
    g: "getPortal s ''main'' 9999 = (Inr (Element p), s')"
    and s1: "s1 = s'\<lparr>doc := update_node (update_node (doc s') e (\<lambda>n. n\<lparr>parent := Some p\<rparr>)) e
                        (\<lambda>n. n\<lparr>style := assign ''pointer-events'' (Ident ''auto'') (style n)\<rparr>),
                     emitted := emitted s' @ [ElementAdded e ''main'']\<rparr>"
    by blast
  from getPortal_registered [OF wf g] e
  have m: "map_of (portals s') ''main'' = Some p" and el: "e < length (nodes (doc s'))"
    by simp_all
  have ps: "portals s1 = portals s'" by (simp add: s1)
  have l1: "e < length (nodes (doc s1))" using el by (simp add: s1)
  have par: "parentNode (doc s1) e = Some p" using el by (simp add: s1 parentNode_def)
  have c: "contains (doc s1) p e" by (rule contains_child [OF l1 par])
  let ?P = "\<lambda>(k, portal). contains (doc s1) portal e"
  have f: "List.find ?P (portals s1) = Some (''main'', p)"
  proof (rule find_first_key)
    show "map_of (portals s1) ''main'' = Some p" using m ps by simp
    show "?P (''main'', p)" using c by simp
    show "\<forall>x \<in> set (takeWhile (\<lambda>(k', q). k' \<noteq> ''main'') (portals s1)). \<not> ?P x"
      using before by auto
  qed
  let ?s2 = "s1\<lparr>doc := update_node (doc s1) e (\<lambda>n. n\<lparr>parent := None\<rparr>),
                 emitted := emitted s1 @ [ElementRemoved e ''main'']\<rparr>"
  have r1: "removeFromPortal s1 e = (Inr True, ?s2)"
    by (rule removeFromPortal_found [OF f par])
  have p2: "parentNode (doc ?s2) e = None" using l1 by (simp add: parentNode_def)
  then have "\<forall>(k, q) \<in> set (portals ?s2). parentNode (doc ?s2) e \<noteq> Some q" by simp
  then have r2: "removeFromPortal ?s2 e = (Inr False, ?s2)"
    by (rule removeFromPortal_not_child)
  from r1 p2 r2 show ?thesis by simp
qed

lemma remove_after_add_rebuilt:
  "wf_dom (doc rebuilt) \<and> 4 < length (nodes (doc rebuilt))
   \<and> fst (addToPortal rebuilt 4 ''main'') = Inr 4
   \<and> portals (snd (addToPortal rebuilt 4 ''main'')) = [(''a'', 8), (''main'', 10)]
   \<and> contains (doc (snd (addToPortal rebuilt 4 ''main''))) 8 4 = False
   \<and> (\<exists>s2. removeFromPortal (snd (addToPortal rebuilt 4 ''main'')) 4 = (Inr True, s2)
           \<and> parentNode (doc s2) 4 = None
           \<and> emitted s2 = emitted (snd (addToPortal rebuilt 4 ''main'')) @ [ElementRemoved 4 ''main'']
           \<and> removeFromPortal s2 4 = (Inr False, s2))"
proof -
  let ?s1 = "snd (addToPortal rebuilt 4 ''main'')"
  have w: "wf_dom (doc rebuilt)" by code_simp
  have l: "4 < length (nodes (doc rebuilt))" by code_simp
  have f: "fst (addToPortal rebuilt 4 ''main'') = Inr 4" by code_simp
  then have a: "addToPortal rebuilt 4 ''main'' = (Inr 4, ?s1)"
    by (cases "addToPortal rebuilt 4 ''main''") simp
  have p: "portals ?s1 = [(''a'', 8), (''main'', 10)]" by code_simp
  have c: "contains (doc ?s1) 8 4 = False" by code_simp
  have h: "\<forall>(k, p) \<in> set (takeWhile (\<lambda>(k, p). k \<noteq> ''main'') (portals ?s1)).
             \<not> contains (doc ?s1) p 4"
    by (simp add: p c)
  from remove_after_add [OF w l a h] w l f p c show ?thesis by blast
qed

text \<open>
  C4, in the state \<open>nested\<close>, where \<open>"a"\<close> was registered before \<open>"main"\<close> and
  holds the container of \<open>"main"\<close>. \<open>addToPortal(e, "main")\<close> succeeds for the
  \<open>div\<close> (node 4) and makes it a direct child of the container of \<open>"main"\<close> (node
  10). The loop of \<open>removeFromPortal\<close> stops at \<open>"a"\<close>, whose container (node 8)
  contains the \<open>div\<close> as a descendant; the test \<open>element.parentNode === foundPortal\<close>
  then fails, so the first \<open>removeFromPortal(e)\<close> returns false, emits nothing and
  leaves the \<open>div\<close> mounted in \<open>"main"\<close>.
\<close>

theorem add_remove_round_trip_nested:
  "wf_state nested \<and> 4 < length (nodes (doc nested))
   \<and> fst (addToPortal nested 4 ''main'') = Inr 4
   \<and> portals (snd (addToPortal nested 4 ''main'')) = [(''a'', 8), (''main'', 10)]
   \<and> parentNode (doc (snd (addToPortal nested 4 ''main''))) 4 = Some 10
   \<and> parentNode (doc (snd (addToPortal nested 4 ''main''))) 10 = Some 8
   \<and> contains (doc (snd (addToPortal nested 4 ''main''))) 8 4 = True
   \<and> removeFromPortal (snd (addToPortal nested 4 ''main'')) 4
       = (Inr False, snd (addToPortal nested 4 ''main''))"
proof -
  let ?s1 = "snd (addToPortal nested 4 ''main'')"
  have "wf_state nested" by code_simp
  moreover have "4 < length (nodes (doc nested))" by code_simp
  moreover have "fst (addToPortal nested 4 ''main'') = Inr 4" by code_simp
  moreover have "portals ?s1 = [(''a'', 8), (''main'', 10)]" by code_simp
  moreover have "parentNode (doc ?s1) 4 = Some 10" by code_simp
  moreover have "parentNode (doc ?s1) 10 = Some 8" by code_simp
  moreover have "contains (doc ?s1) 8 4 = True" by code_simp
  moreover have "removeFromPortal ?s1 4 = (Inr False, ?s1)" by code_simp
  ultimately show ?thesis by blast
qed

text \<open>
  C10, as the code has it. The container of a registered surface that is still where
  its creation put it, a child of the body, is not removable: \<open>removeFromPortal\<close>
  returns false and changes nothing. The same holds for every container whose parent
  is not the container of a registered surface.
\<close>

theorem remove_of_container:
  assumes wf: "wf_state s" and reg: "(k, r) \<in> set (portals s)"
    and par: "parentNode (doc s) r = Some (body (doc s))
              \<or> (\<forall>(k', p) \<in> set (portals s). parentNode (doc s) r \<noteq> Some p)"
  shows "removeFromPortal s r = (Inr False, s)"
proof (rule removeFromPortal_not_child)
  from wf have tb: "localName (nodes (doc s) ! body (doc s)) = ''body''"
    and roots: "\<forall>(k', p) \<in> set (portals s). localName (nodes (doc s) ! p) = ''div''"
    by (auto simp: wf_state_def wf_dom_def list_all_iff)
  from tb roots have "\<forall>(k', p) \<in> set (portals s). p \<noteq> body (doc s)" by auto
  with par show "\<forall>(k', p) \<in> set (portals s). parentNode (doc s) r \<noteq> Some p" by auto
qed

theorem remove_of_container_witness:
  "wf_state manager0 \<and> (''main'', 6) \<in> set (portals manager0)
   \<and> parentNode (doc manager0) 6 = Some (body (doc manager0))
   \<and> removeFromPortal manager0 6 = (Inr False, manager0)"
proof -
  have w: "wf_state manager0" by code_simp
  have r: "(''main'', 6) \<in> set (portals manager0)" by code_simp
  have p: "parentNode (doc manager0) 6 = Some (body (doc manager0))" by code_simp
  from remove_of_container [OF w r disjI1 [OF p]] w r p show ?thesis by simp
qed

theorem remove_of_container_counterexample:
  "wf_state adopted \<and> (''a'', 8) \<in> set (portals adopted)
   \<and> parentNode (doc adopted) 8 = Some 6
   \<and> fst (removeFromPortal adopted 8) = Inr True
   \<and> parentNode (doc (snd (removeFromPortal adopted 8))) 8 = None
   \<and> (''a'', 8) \<in> set (portals (snd (removeFromPortal adopted 8)))"
proof -
  have "wf_state adopted" by code_simp
  moreover have "(''a'', 8) \<in> set (portals adopted)" by code_simp
  moreover have "parentNode (doc adopted) 8 = Some 6" by code_simp
  moreover have "fst (removeFromPortal adopted 8) = Inr True" by code_simp
  moreover have "parentNode (doc (snd (removeFromPortal adopted 8))) 8 = None" by code_simp
  moreover have "(''a'', 8) \<in> set (portals (snd (removeFromPortal adopted 8)))" by code_simp
  ultimately show ?thesis by blast
qed

section \<open>Teardown\<close>

lemma parent_None_update: "parent x = None \<Longrightarrow> x\<lparr>parent := None\<rparr> = x"
  by (cases x) simp

lemma detach_all_fst: "fst (detach_all ps d) = Inr ()"
  by (induction ps d rule: detach_all.induct) (simp_all add: removeChild_def split: option.splits)

lemma detach_all_frame:
  "length (nodes (snd (detach_all ps d))) = length (nodes d)
   \<and> head (snd (detach_all ps d)) = head d \<and> body (snd (detach_all ps d)) = body d
   \<and> innerWidth (snd (detach_all ps d)) = innerWidth d
   \<and> innerHeight (snd (detach_all ps d)) = innerHeight d"
  by (induction ps d rule: detach_all.induct) (simp_all add: removeChild_def split: option.splits)

lemma detach_all_nth:
  "n < length (nodes d) \<Longrightarrow>
     nodes (snd (detach_all ps d)) ! n =
       (if n \<in> snd ` set ps then (nodes d ! n)\<lparr>parent := None\<rparr> else nodes d ! n)"
proof (induction ps d rule: detach_all.induct)
  case (1 d)
  show ?case by simp
next
  case (2 k portal rest d)
  show ?case
  proof (cases "parentNode d portal")
    case None
    then have "(nodes d ! portal)\<lparr>parent := None\<rparr> = nodes d ! portal"
      by (simp add: parentNode_def parent_None_update)
    with 2 None show ?thesis by auto
  next
    case (Some p)
    let ?d1 = "update_node d portal (\<lambda>n. n\<lparr>parent := None\<rparr>)"
    have r: "removeChild d p portal = Inr ?d1" using Some by (simp add: removeChild_def)
    from 2(3) have n1: "n < length (nodes ?d1)" by simp
    from "2.IH"(2) [OF Some r n1] Some r 2(3) show ?thesis
      by (cases "n = portal") auto
  qed
qed

lemma destroy_result:
  "destroy s = (Inr (), s\<lparr>doc := snd (detach_all (portals s) (doc s)), portals := []\<rparr>)"
  using detach_all_fst [of "portals s" "doc s"]
  by (cases "detach_all (portals s) (doc s)") (simp add: destroy_def)

text \<open>
  C8. In every well-formed state \<open>destroy\<close> throws nothing, leaves the registry empty
  and every container that was registered without a parent, and emits no notification.
  A second \<open>destroy\<close> throws nothing and returns the very same state.
\<close>

theorem destroy_total_and_repeatable:
  assumes wf: "wf_state s"
  shows "\<exists>s'. destroy s = (Inr (), s') \<and> portals s' = []
           \<and> (\<forall>(k, p) \<in> set (portals s). parentNode (doc s') p = None)
           \<and> emitted s' = emitted s
           \<and> destroy s' = (Inr (), s')"
proof -
  let ?s' = "s\<lparr>doc := snd (detach_all (portals s) (doc s)), portals := []\<rparr>"
  have d: "destroy s = (Inr (), ?s')" by (rule destroy_result)
  from wf have r: "\<forall>(k, p) \<in> set (portals s). p < length (nodes (doc s))"
    by (auto simp: wf_state_def list_all_iff)
  have "parentNode (doc ?s') p = None" if "(k, p) \<in> set (portals s)" for k p
  proof -
    from r that have "p < length (nodes (doc s))" by auto
    moreover from that have "p \<in> snd ` set (portals s)" by force
    ultimately show ?thesis by (simp add: parentNode_def detach_all_nth)
  qed
  moreover have "destroy ?s' = (Inr (), ?s')" by (simp add: destroy_def)
  ultimately show ?thesis using d by auto
qed

theorem destroy_total_and_repeatable_witness:
  "wf_state manager0 \<and> portals manager0 = [(''main'', 6)]
   \<and> parentNode (doc manager0) 6 = Some 2
   \<and> (\<exists>s'. destroy manager0 = (Inr (), s') \<and> portals s' = []
           \<and> parentNode (doc s') 6 = None \<and> destroy s' = (Inr (), s'))
   \<and> wf_state adopted \<and> portals adopted = [(''main'', 6), (''a'', 8)]
   \<and> parentNode (doc adopted) 6 = Some 2 \<and> parentNode (doc adopted) 8 = Some 6
   \<and> (\<exists>s'. destroy adopted = (Inr (), s') \<and> portals s' = []
           \<and> parentNode (doc s') 6 = None \<and> parentNode (doc s') 8 = None
           \<and> destroy s' = (Inr (), s'))"
proof -
  have w: "wf_state manager0" by code_simp
  have p: "portals manager0 = [(''main'', 6)]" by code_simp
  have b: "parentNode (doc manager0) 6 = Some 2" by code_simp
  have w': "wf_state adopted" by code_simp
  have p': "portals adopted = [(''main'', 6), (''a'', 8)]" by code_simp
  have b': "parentNode (doc adopted) 6 = Some 2" "parentNode (doc adopted) 8 = Some 6"
    by code_simp+
  from destroy_total_and_repeatable [OF w] p
  have 1: "\<exists>s'. destroy manager0 = (Inr (), s') \<and> portals s' = []
           \<and> parentNode (doc s') 6 = None \<and> destroy s' = (Inr (), s')"
    by auto
  from destroy_total_and_repeatable [OF w'] p'
  have 2: "\<exists>s'. destroy adopted = (Inr (), s') \<and> portals s' = []
           \<and> parentNode (doc s') 6 = None \<and> parentNode (doc s') 8 = None
           \<and> destroy s' = (Inr (), s')"
    by auto
  from w p b 1 w' p' b' 2 show ?thesis by blast
qed

lemma wf_state_roots:
  assumes "wf_state s" and "(k, p) \<in> set (portals s)"
  shows "p < length (nodes (doc s)) \<and> localName (nodes (doc s) ! p) = ''div''
         \<and> parentNode (doc s) p \<noteq> Some (head (doc s))"
  using assms by (auto simp: wf_state_def list_all_iff parentNode_def)

text \<open>
  C9. In a well-formed state a creation appends to the store, right after the new
  container, a style element that is a child of the head and holds the rule
  \<open>#portal-id { z-index: z !important }\<close>. \<open>destroy\<close> changes nothing but the parent
  pointers of the registered containers: every other node is left as it is, among them
  every style element, the head and every child of the head, and no node becomes or
  ceases to be a child of the head. The style element of a surface is therefore still
  in the head after the teardown that follows its creation.
\<close>

theorem style_elements_survive_destroy:
  assumes wf: "wf_state s"
  shows "(get_property (portals s) pid = None \<longrightarrow>
            (\<exists>r s1 s2. createPortal s pid z = (Inr (Element r), s1)
               \<and> nodes (doc s1) ! Suc r = style_node (doc s) pid z
               \<and> parentNode (doc s1) (Suc r) = Some (head (doc s1))
               \<and> destroy s1 = (Inr (), s2)
               \<and> nodes (doc s2) ! Suc r = style_node (doc s) pid z
               \<and> parentNode (doc s2) (Suc r) = Some (head (doc s2))))
         \<and> (\<exists>s'. destroy s = (Inr (), s')
               \<and> length (nodes (doc s')) = length (nodes (doc s))
               \<and> head (doc s') = head (doc s)
               \<and> nodes (doc s') ! head (doc s) = nodes (doc s) ! head (doc s)
               \<and> (\<forall>n<length (nodes (doc s)).
                     (n \<notin> snd ` set (portals s) \<longrightarrow> nodes (doc s') ! n = nodes (doc s) ! n)
                   \<and> (localName (nodes (doc s) ! n) = ''style'' \<longrightarrow> nodes (doc s') ! n = nodes (doc s) ! n)
                   \<and> (parentNode (doc s') n = Some (head (doc s'))
                        \<longleftrightarrow> parentNode (doc s) n = Some (head (doc s)))))"
proof -
  have frame: "\<exists>s'. destroy t = (Inr (), s')
               \<and> length (nodes (doc s')) = length (nodes (doc t))
               \<and> head (doc s') = head (doc t)
               \<and> nodes (doc s') ! head (doc t) = nodes (doc t) ! head (doc t)
               \<and> (\<forall>n<length (nodes (doc t)).
                     (n \<notin> snd ` set (portals t) \<longrightarrow> nodes (doc s') ! n = nodes (doc t) ! n)
                   \<and> (localName (nodes (doc t) ! n) = ''style'' \<longrightarrow> nodes (doc s') ! n = nodes (doc t) ! n)
                   \<and> (parentNode (doc s') n = Some (head (doc s'))
                        \<longleftrightarrow> parentNode (doc t) n = Some (head (doc t))))"
    if wt: "wf_state t" for t
  proof -
    let ?d' = "snd (detach_all (portals t) (doc t))"
    let ?s' = "t\<lparr>doc := ?d', portals := []\<rparr>"
    have d: "destroy t = (Inr (), ?s')" by (rule destroy_result)
    from wt have h: "head (doc t) < length (nodes (doc t))"
      and th: "localName (nodes (doc t) ! head (doc t)) = ''head''"
      by (simp_all add: wf_state_def wf_dom_def)
    have nr: "n \<notin> snd ` set (portals t)" if "localName (nodes (doc t) ! n) \<noteq> ''div''" for n
      using wf_state_roots [OF wt] that by force
    have hd: "nodes ?d' ! head (doc t) = nodes (doc t) ! head (doc t)"
      using nr [of "head (doc t)"] th h by (simp add: detach_all_nth)
    have st: "nodes ?d' ! n = nodes (doc t) ! n"
      if "n < length (nodes (doc t))" "localName (nodes (doc t) ! n) = ''style''" for n
      using nr [of n] that by (simp add: detach_all_nth)
    have ch: "parentNode ?d' n = Some (head ?d') \<longleftrightarrow> parentNode (doc t) n = Some (head (doc t))"
      if n: "n < length (nodes (doc t))" for n
    proof (cases "n \<in> snd ` set (portals t)")
      case True
      then obtain k where "(k, n) \<in> set (portals t)" by force
      from wf_state_roots [OF wt this] True n show ?thesis
        by (simp add: parentNode_def detach_all_nth detach_all_frame)
    next
      case False
      with n show ?thesis by (simp add: parentNode_def detach_all_nth detach_all_frame)
    qed
    show ?thesis
      using d hd st ch by (auto simp: detach_all_frame detach_all_nth)
  qed
  have create: "\<exists>r s1 s2. createPortal s pid z = (Inr (Element r), s1)
               \<and> nodes (doc s1) ! Suc r = style_node (doc s) pid z
               \<and> parentNode (doc s1) (Suc r) = Some (head (doc s1))
               \<and> destroy s1 = (Inr (), s2)
               \<and> nodes (doc s2) ! Suc r = style_node (doc s) pid z
               \<and> parentNode (doc s2) (Suc r) = Some (head (doc s2))"
    if absent: "get_property (portals s) pid = None"
  proof -
    from wf have wd: "wf_dom (doc s)" by (simp add: wf_state_def)
    let ?L = "length (nodes (doc s))"
    obtain s1 where c: "createPortal s pid z = (Inr (Element ?L), s1)"
      and n1: "nodes (doc s1) = nodes (doc s) @ [portal_node (doc s) pid z, style_node (doc s) pid z]"
      and h1: "head (doc s1) = head (doc s)"
      by (simp add: createPortal_fresh [OF wd absent])
    from wf_state_createPortal [OF wf absent, of z] c have w1: "wf_state s1" by simp
    have a: "nodes (doc s1) ! Suc ?L = style_node (doc s) pid z" by (simp add: n1 nth_append)
    then have b: "parentNode (doc s1) (Suc ?L) = Some (head (doc s1))"
      by (simp add: parentNode_def h1 style_node_def)
    have l: "Suc ?L < length (nodes (doc s1))" by (simp add: n1)
    have t: "localName (nodes (doc s1) ! Suc ?L) = ''style''" by (simp add: a style_node_def)
    from frame [OF w1] obtain s2 where d2: "destroy s1 = (Inr (), s2)"
      and h2: "head (doc s2) = head (doc s1)"
      and f2: "\<forall>n<length (nodes (doc s1)).
                 localName (nodes (doc s1) ! n) = ''style'' \<longrightarrow> nodes (doc s2) ! n = nodes (doc s1) ! n"
      by blast
    from f2 l t have "nodes (doc s2) ! Suc ?L = nodes (doc s1) ! Suc ?L" by blast
    with a b h2 have "nodes (doc s2) ! Suc ?L = style_node (doc s) pid z"
      "parentNode (doc s2) (Suc ?L) = Some (head (doc s2))"
      by (simp_all add: parentNode_def)
    with c a b d2 show ?thesis by blast
  qed
  from create frame [OF wf] show ?thesis by blast
qed

theorem style_elements_survive_destroy_witness:
  "wf_state manager0 \<and> get_property (portals manager0) ''a'' = None
   \<and> (\<exists>s1 s2. createPortal manager0 ''a'' 5 = (Inr (Element 8), s1)
         \<and> textContent (nodes (doc s1) ! 9)
             = [\<lparr>selector = ''#portal-a'', declarations = [(''z-index'', Integer 5, True)]\<rparr>]
         \<and> parentNode (doc s1) 9 = Some 1
         \<and> destroy s1 = (Inr (), s2)
         \<and> parentNode (doc s2) 9 = Some 1)
   \<and> localName (nodes (doc manager0) ! 7) = ''style''
   \<and> parentNode (doc manager0) 7 = Some 1
   \<and> parentNode (doc (snd (destroy manager0))) 7 = Some 1"
proof -
  have w: "wf_state manager0" by code_simp
  have a: "get_property (portals manager0) ''a'' = None" by code_simp
  have l: "length (nodes (doc manager0)) = 8" "head (doc manager0) = 1" by code_simp+
  have t: "localName (nodes (doc manager0) ! 7) = ''style''" by code_simp
  have p: "parentNode (doc manager0) 7 = Some 1" by code_simp
  note inst = style_elements_survive_destroy [OF w, of "''a''" 5]
  from inst a obtain r s1 s2 where
    c: "createPortal manager0 ''a'' 5 = (Inr (Element r), s1)"
    and n1: "nodes (doc s1) ! Suc r = style_node (doc manager0) ''a'' 5"
    and p1: "parentNode (doc s1) (Suc r) = Some (head (doc s1))"
    and d1: "destroy s1 = (Inr (), s2)"
    and p2: "parentNode (doc s2) (Suc r) = Some (head (doc s2))"
    and n2: "nodes (doc s2) ! Suc r = style_node (doc manager0) ''a'' 5"
    by blast
  from w have wd: "wf_dom (doc manager0)" by (simp add: wf_state_def)
  from c have r: "r = 8" and h1: "head (doc s1) = 1"
    by (auto simp: createPortal_fresh [OF wd a] l)
  from p1 n1 p2 n2 h1 have h2: "head (doc s2) = 1"
    by (simp add: parentNode_def style_node_def l)
  have first: "\<exists>s1 s2. createPortal manager0 ''a'' 5 = (Inr (Element 8), s1)
         \<and> textContent (nodes (doc s1) ! 9)
             = [\<lparr>selector = ''#portal-a'', declarations = [(''z-index'', Integer 5, True)]\<rparr>]
         \<and> parentNode (doc s1) 9 = Some 1
         \<and> destroy s1 = (Inr (), s2)
         \<and> parentNode (doc s2) 9 = Some 1"
    using c n1 p1 d1 p2 h1 h2 by (auto simp: r style_node_def)
  from inst obtain s' where d: "destroy manager0 = (Inr (), s')"
    and f: "\<forall>n<length (nodes (doc manager0)).
              localName (nodes (doc manager0) ! n) = ''style'' \<longrightarrow> nodes (doc s') ! n = nodes (doc manager0) ! n"
    by blast
  from f t l have "nodes (doc s') ! 7 = nodes (doc manager0) ! 7" by simp
  with p d have last: "parentNode (doc (snd (destroy manager0))) 7 = Some 1"
    by (simp add: parentNode_def)
  from w a first t p last show ?thesis by blast
qed

section \<open>Well-formedness is an invariant\<close>

lemma wf_state_update:
  assumes wf: "wf_state s"
    and tg: "\<And>x. localName (f x) = localName x"
    and pr: "\<And>x. parent (f x) = parent x \<or> parent (f x) = None
              \<or> (\<exists>q<length (nodes (doc s)). parent (f x) = Some q \<and> q \<noteq> head (doc s))"
  shows "wf_state (s\<lparr>doc := update_node (doc s) c f\<rparr>)"
proof -
  let ?d = "doc s"
  let ?d' = "update_node ?d c f"
  from wf have wd: "wf_dom ?d" by (simp add: wf_state_def)
  have tag: "localName ((nodes ?d)[c := f (nodes ?d ! c)] ! n) = localName (nodes ?d ! n)" for n
    by (cases "n = c"; cases "c < length (nodes ?d)") (simp_all add: tg list_update_beyond)
  have l: "linked ?d'"
  proof (rule linked_update)
    show "linked ?d" using wd by (simp add: wf_dom_def)
    show "parent (f x) = parent x \<or> parent (f x) = None
            \<or> (\<exists>q<length (nodes ?d). parent (f x) = Some q)" for x
      using pr [of x] by blast
  qed
  have wd': "wf_dom ?d'" using wd l by (simp add: wf_dom_def tag)
  have "parent ((nodes ?d)[c := f (nodes ?d ! c)] ! p) \<noteq> Some (head ?d)"
    if "parent (nodes ?d ! p) \<noteq> Some (head ?d)" for p
    using that pr [of "nodes ?d ! c"]
    by (cases "p = c"; cases "c < length (nodes ?d)") (auto simp: list_update_beyond)
  with wf have "list_all (\<lambda>(k, p). p < length (nodes ?d') \<and> localName (nodes ?d' ! p) = ''div''
                          \<and> parent (nodes ?d' ! p) \<noteq> Some (head ?d')) (portals s)"
    by (auto simp: wf_state_def list_all_iff tag)
  with wd' wf show ?thesis by (simp add: wf_state_def)
qed

lemma wf_state_emitted [simp]: "wf_state (s\<lparr>emitted := es\<rparr>) = wf_state s"
  by (simp add: wf_state_def)

lemma wf_state_addToPortal:
  assumes wf: "wf_state s"
  shows "wf_state (snd (addToPortal s e pid))"
proof -
  obtain res s' where g: "getPortal s pid 9999 = (res, s')" by (cases "getPortal s pid 9999")
  from wf_state_getPortal [OF wf, of pid 9999] g have w': "wf_state s'" by simp
  from wf have wd: "wf_dom (doc s)" by (simp add: wf_state_def)
  show ?thesis
  proof (cases res)
    case (Inl err)
    with g w' show ?thesis by (simp add: addToPortal_def)
  next
    case (Inr v)
    show ?thesis
    proof (cases v)
      case (Inherited k)
      with g Inr w' show ?thesis by (simp add: addToPortal_def)
    next
      case (Element p)
      from getPortal_registered [OF wd] g Inr Element have "map_of (portals s') pid = Some p"
        by simp
      then have "(pid, p) \<in> set (portals s')" by (rule map_of_SomeD)
      from wf_state_roots [OF w' this] w'
      have pl: "p < length (nodes (doc s'))" and ph: "p \<noteq> head (doc s')"
        by (auto simp: wf_state_def wf_dom_def)
      let ?s1 = "s'\<lparr>doc := update_node (doc s') e (\<lambda>n. n\<lparr>parent := Some p\<rparr>)\<rparr>"
      have w1: "wf_state ?s1"
        by (rule wf_state_update [OF w']) (simp_all add: pl ph)
      have "wf_state (?s1\<lparr>doc := update_node (doc ?s1) e
               (\<lambda>n. n\<lparr>style := assign ''pointer-events'' (Ident ''auto'') (style n)\<rparr>)\<rparr>)"
        by (rule wf_state_update [OF w1]) simp_all
      then show ?thesis
        using g Inr Element w'
        by (simp add: addToPortal_def appendChild_def Let_def)
    qed
  qed
qed

lemma wf_state_removeFromPortal:
  assumes wf: "wf_state s"
  shows "wf_state (snd (removeFromPortal s e))"
proof -
  have "wf_state (s\<lparr>doc := update_node (doc s) e (\<lambda>n. n\<lparr>parent := None\<rparr>)\<rparr>)"
    by (rule wf_state_update [OF wf]) simp_all
  with wf show ?thesis
    by (simp add: removeFromPortal_def removeChild_def split: option.splits prod.splits)
qed

lemma wf_state_positionElement:
  assumes wf: "wf_state s"
  shows "wf_state (snd (positionElement s e ref opts))"
proof -
  have st: "wf_state (t\<lparr>doc := update_node (doc t) e (\<lambda>n. n\<lparr>style := assign k v (style n)\<rparr>)\<rparr>)"
    if "wf_state t" for t k v
    by (rule wf_state_update [OF that]) simp_all
  from st [OF st [OF st [OF st [OF wf]]]] show ?thesis
    by (simp add: positionElement_def Let_def wf_state_addToPortal)
qed

lemma wf_state_destroy:
  assumes wf: "wf_state s"
  shows "wf_state (snd (destroy s))"
proof -
  let ?d = "doc s"
  let ?d' = "snd (detach_all (portals s) ?d)"
  from wf have wd: "wf_dom ?d" by (simp add: wf_state_def)
  then have h: "head ?d < length (nodes ?d)" and b: "body ?d < length (nodes ?d)"
    by (simp_all add: wf_dom_def)
  have "linked ?d'"
  proof (rule linkedI)
    fix m p assume m: "m < length (nodes ?d')" and p: "parentNode ?d' m = Some p"
    from m have ml: "m < length (nodes ?d)" by (simp add: detach_all_frame)
    with p have "parentNode ?d m = Some p"
      by (simp add: parentNode_def detach_all_nth split: if_splits)
    from linked_parent [OF _ ml this] wd show "p < length (nodes ?d')"
      by (simp add: wf_dom_def detach_all_frame)
  qed
  with wd h b have "wf_dom ?d'"
    by (simp add: wf_dom_def detach_all_frame detach_all_nth)
  then show ?thesis by (simp add: destroy_result wf_state_def)
qed

end
